theory Spec2Isabelle
  imports Complex_Main
begin

section \<open>Data model of \<^verbatim>\<open>src/hooks/useMouseInput.ts\<close>\<close>

text \<open>
  The hook works on JavaScript numbers. They are modelled as \<^typ>\<open>real\<close>: the DOM
  metrics read by the code are finite (never NaN), and the only operations applied to
  them are addition, subtraction, \<^verbatim>\<open>Math.round\<close> and the truthiness test
  of \<^verbatim>\<open>||\<close>.
\<close>

record MouseCoords =
  x :: real
  y :: real

record MousePosition =
  position :: MouseCoords
  delta :: "MouseCoords option"

text \<open>The value returned by \<^verbatim>\<open>getOffset\<close>: an object with fields top and left.\<close>

record Offset =
  top_offset :: real
  left :: real

text \<open>The two fields of \<^verbatim>\<open>getBoundingClientRect()\<close> that the code reads.\<close>

record DOMRect =
  box_top :: real
  box_left :: real

text \<open>An element is named by its identity.\<close>

type_synonym element = nat

text \<open>
  Everything the code reads from \<^verbatim>\<open>window\<close> and \<^verbatim>\<open>document\<close>:
  the layout and scroll metrics at one moment.
\<close>

record Env =
  getBoundingClientRect :: "element \<Rightarrow> DOMRect"
  pageYOffset :: real
  pageXOffset :: real
  scrollX :: real
  scrollY :: real
  docEl_scrollTop :: real
  docEl_scrollLeft :: real
  body_scrollTop :: real
  body_scrollLeft :: real
  docEl_clientTop :: real
  docEl_clientLeft :: real
  body_clientTop :: real
  body_clientLeft :: real

text \<open>The two fields of a native \<^verbatim>\<open>MouseEvent\<close> that the code reads.\<close>

record MouseEvent =
  clientX :: real
  clientY :: real

section \<open>Offset Resolver and Coordinate Mapper\<close>

text \<open>
  \<^verbatim>\<open>a || b\<close> on numbers: \<^verbatim>\<open>a\<close> when it is truthy (not zero), else
  \<^verbatim>\<open>b\<close>.
\<close>

definition js_or :: "real \<Rightarrow> real \<Rightarrow> real" where
  "js_or a b = (if a \<noteq> 0 then a else b)"

text \<open>\<^verbatim>\<open>Math.round\<close>: the nearest integer, a tie going towards plus infinity.\<close>

definition Math_round :: "real \<Rightarrow> real" where
  "Math_round v = of_int \<lfloor>v + 1 / 2\<rfloor>"

definition getOffset :: "element option \<Rightarrow> Env \<Rightarrow> Offset" where
  "getOffset domEl env =
     (case domEl of
        None \<Rightarrow> \<lparr>top_offset = 0, left = 0\<rparr>
      | Some el \<Rightarrow>
          let box = getBoundingClientRect env el;
              scrollTop = js_or (js_or (pageYOffset env) (docEl_scrollTop env)) (body_scrollTop env);
              scrollLeft = js_or (js_or (pageXOffset env) (docEl_scrollLeft env)) (body_scrollLeft env);
              clientTop = js_or (js_or (docEl_clientTop env) (body_clientTop env)) 0;
              clientLeft = js_or (js_or (docEl_clientLeft env) (body_clientLeft env)) 0;
              top = box_top box + scrollTop - clientTop;
              left = box_left box + scrollLeft - clientLeft
          in \<lparr>top_offset = Math_round top, left = Math_round left\<rparr>)"

definition mouseEventToCoords :: "element option \<Rightarrow> Env \<Rightarrow> MouseEvent \<Rightarrow> MouseCoords" where
  "mouseEventToCoords domEl env e =
     (let offset = getOffset domEl env
      in \<lparr>x = clientX e - left offset + scrollX env,
          y = clientY e - top_offset offset + scrollY env\<rparr>)"

definition parseMousePosition ::
  "element option \<Rightarrow> Env \<Rightarrow> MouseEvent \<Rightarrow> MouseCoords option \<Rightarrow> MousePosition" where
  "parseMousePosition domEl env e mousedown =
     (let current = mouseEventToCoords domEl env e;
          delta = (case mousedown of
                     Some m \<Rightarrow> Some \<lparr>x = x current - x m, y = y current - y m\<rparr>
                   | None \<Rightarrow> None)
      in \<lparr>position = \<lparr>x = x current, y = y current\<rparr>, delta = delta\<rparr>)"

section \<open>The hook: one run of the effect\<close>

text \<open>
  A callback of the caller, \<^verbatim>\<open>(e: MousePosition) => void\<close>. It is arbitrary code
  that runs between the two statements of a handler, so it may change the document
  (scroll it, move the element): it is a transformer of the document state. Callbacks
  are taken to return normally.
\<close>

type_synonym MouseEventFn = "MousePosition \<Rightarrow> Env \<Rightarrow> Env"

record MouseEvents =
  onMouseMove :: MouseEventFn
  onMouseDown :: MouseEventFn
  onMouseUp :: MouseEventFn
  onMouseEnter :: MouseEventFn
  onMouseLeave :: MouseEventFn

text \<open>The five native event types the hook listens to.\<close>

datatype EventKind = mousemove | mousedown | mouseup | mouseenter | mouseleave

text \<open>
  The five names \<^verbatim>\<open>onMouseMove\<close>, ... of the source: each names a handler
  declared in the effect and the field of the callback set that this handler calls.
\<close>

datatype Name = OnMouseMove | OnMouseDown | OnMouseUp | OnMouseEnter | OnMouseLeave

text \<open>
  What one run of the effect body closes over: the element and the callback set of that
  render, and its own variable \<^verbatim>\<open>lastPosition\<close>.
\<close>

record Binding =
  bound_domEl :: element
  bound_callbacks :: MouseEvents
  lastPosition :: "MouseCoords option"

text \<open>
  A handler takes the native event, the closure and the document state; it returns the
  callback it invoked with the argument it passed, the closure with \<^verbatim>\<open>lastPosition\<close>
  assigned, and the document state the callback left. The position stored is measured
  again, after the callback has returned.
\<close>

type_synonym Invocation = "Name \<times> MousePosition"

definition onMouseDown_handler :: "MouseEvent \<Rightarrow> Binding \<Rightarrow> Env \<Rightarrow> Invocation \<times> Binding \<times> Env" where
  "onMouseDown_handler e b env =
     (let arg = parseMousePosition (Some (bound_domEl b)) env e (lastPosition b);
          env' = onMouseDown (bound_callbacks b) arg env
      in ((OnMouseDown, arg),
          b\<lparr>lastPosition := Some (mouseEventToCoords (Some (bound_domEl b)) env' e)\<rparr>,
          env'))"

definition onMouseUp_handler :: "MouseEvent \<Rightarrow> Binding \<Rightarrow> Env \<Rightarrow> Invocation \<times> Binding \<times> Env" where
  "onMouseUp_handler e b env =
     (let arg = parseMousePosition (Some (bound_domEl b)) env e (lastPosition b);
          env' = onMouseUp (bound_callbacks b) arg env
      in ((OnMouseUp, arg),
          b\<lparr>lastPosition := Some (mouseEventToCoords (Some (bound_domEl b)) env' e)\<rparr>,
          env'))"

definition onMouseMove_handler :: "MouseEvent \<Rightarrow> Binding \<Rightarrow> Env \<Rightarrow> Invocation \<times> Binding \<times> Env" where
  "onMouseMove_handler e b env =
     (let arg = parseMousePosition (Some (bound_domEl b)) env e (lastPosition b);
          env' = onMouseMove (bound_callbacks b) arg env
      in ((OnMouseMove, arg),
          b\<lparr>lastPosition := Some (mouseEventToCoords (Some (bound_domEl b)) env' e)\<rparr>,
          env'))"

definition onMouseEnter_handler :: "MouseEvent \<Rightarrow> Binding \<Rightarrow> Env \<Rightarrow> Invocation \<times> Binding \<times> Env" where
  "onMouseEnter_handler e b env =
     (let arg = parseMousePosition (Some (bound_domEl b)) env e (lastPosition b);
          env' = onMouseEnter (bound_callbacks b) arg env
      in ((OnMouseEnter, arg),
          b\<lparr>lastPosition := Some (mouseEventToCoords (Some (bound_domEl b)) env' e)\<rparr>,
          env'))"

definition onMouseLeave_handler :: "MouseEvent \<Rightarrow> Binding \<Rightarrow> Env \<Rightarrow> Invocation \<times> Binding \<times> Env" where
  "onMouseLeave_handler e b env =
     (let arg = parseMousePosition (Some (bound_domEl b)) env e (lastPosition b);
          env' = onMouseLeave (bound_callbacks b) arg env
      in ((OnMouseLeave, arg),
          b\<lparr>lastPosition := Some (mouseEventToCoords (Some (bound_domEl b)) env' e)\<rparr>,
          env'))"

fun handler :: "Name \<Rightarrow> MouseEvent \<Rightarrow> Binding \<Rightarrow> Env \<Rightarrow> Invocation \<times> Binding \<times> Env" where
  "handler OnMouseMove = onMouseMove_handler"
| "handler OnMouseDown = onMouseDown_handler"
| "handler OnMouseUp = onMouseUp_handler"
| "handler OnMouseEnter = onMouseEnter_handler"
| "handler OnMouseLeave = onMouseLeave_handler"

text \<open>The field of the callback set that carries a name.\<close>

fun callback_named :: "Name \<Rightarrow> MouseEvents \<Rightarrow> MouseEventFn" where
  "callback_named OnMouseMove = onMouseMove"
| "callback_named OnMouseDown = onMouseDown"
| "callback_named OnMouseUp = onMouseUp"
| "callback_named OnMouseEnter = onMouseEnter"
| "callback_named OnMouseLeave = onMouseLeave"

text \<open>The handler the effect registers for each event type (lines 111 to 115).\<close>

fun registered :: "EventKind \<Rightarrow> Name" where
  "registered mousemove = OnMouseMove"
| "registered mousedown = OnMouseDown"
| "registered mouseup = OnMouseUp"
| "registered mouseenter = OnMouseEnter"
| "registered mouseleave = OnMouseLeave"

definition coords_minus :: "MouseCoords \<Rightarrow> MouseCoords \<Rightarrow> MouseCoords" where
  "coords_minus a b = \<lparr>x = x a - x b, y = y a - y b\<rparr>"

text \<open>
  A session of one binding: the events delivered to its handlers, in order. Each event
  comes with the handler it reaches and the document state at its dispatch (the document
  may change between two events). The result lists, for each event, the sample passed to
  the callback and the value of \<^verbatim>\<open>lastPosition\<close> after the handler.
\<close>

fun session :: "Binding \<Rightarrow> (Name \<times> MouseEvent \<times> Env) list \<Rightarrow> (MousePosition \<times> MouseCoords option) list" where
  "session b [] = []"
| "session b ((n, e, env) # evs) =
     (case handler n e b env of
        ((_, arg), b', _) \<Rightarrow> (arg, lastPosition b') # session b' evs)"

section \<open>Concrete documents, callbacks and events\<close>

text \<open>
  An unscrolled document in which every element has its bounding box at top 100 and
  left 50.
\<close>

definition scenario_env :: Env where
  "scenario_env =
     \<lparr>getBoundingClientRect = (\<lambda>_. \<lparr>box_top = 100, box_left = 50\<rparr>),
      pageYOffset = 0, pageXOffset = 0, scrollX = 0, scrollY = 0,
      docEl_scrollTop = 0, docEl_scrollLeft = 0,
      body_scrollTop = 0, body_scrollLeft = 0,
      docEl_clientTop = 0, docEl_clientLeft = 0,
      body_clientTop = 0, body_clientLeft = 0\<rparr>"

text \<open>
  What \<^verbatim>\<open>window.scrollBy(5, 0)\<close> does to the document: the window scrolls right by
  5 and every bounding box moves left by 5.
\<close>

definition scrollBy5 :: "Env \<Rightarrow> Env" where
  "scrollBy5 env =
     env\<lparr>getBoundingClientRect :=
           (\<lambda>el. \<lparr>box_top = box_top (getBoundingClientRect env el),
                  box_left = box_left (getBoundingClientRect env el) - 5\<rparr>),
         pageXOffset := pageXOffset env + 5,
         scrollX := scrollX env + 5\<rparr>"

text \<open>A callback set that leaves the document alone, and one that pans it.\<close>

definition idle_callbacks :: MouseEvents where
  "idle_callbacks =
     \<lparr>onMouseMove = (\<lambda>_ env. env), onMouseDown = (\<lambda>_ env. env), onMouseUp = (\<lambda>_ env. env),
      onMouseEnter = (\<lambda>_ env. env), onMouseLeave = (\<lambda>_ env. env)\<rparr>"

definition panning_callbacks :: MouseEvents where
  "panning_callbacks =
     \<lparr>onMouseMove = (\<lambda>_. scrollBy5), onMouseDown = (\<lambda>_. scrollBy5), onMouseUp = (\<lambda>_. scrollBy5),
      onMouseEnter = (\<lambda>_. scrollBy5), onMouseLeave = (\<lambda>_. scrollBy5)\<rparr>"

text \<open>The closure of a run of the effect that has seen no event yet.\<close>

definition new_binding :: "element \<Rightarrow> MouseEvents \<Rightarrow> Binding" where
  "new_binding el cbs = \<lparr>bound_domEl = el, bound_callbacks = cbs, lastPosition = None\<rparr>"

definition event_60_110 :: MouseEvent where
  "event_60_110 = \<lparr>clientX = 60, clientY = 110\<rparr>"

definition event_70_130 :: MouseEvent where
  "event_70_130 = \<lparr>clientX = 70, clientY = 130\<rparr>"

text \<open>
  The standing condition of the scenario: the element's resolved offset is top 100 and
  left 50 and the window is not scrolled.
\<close>

definition scenario_state :: "element \<Rightarrow> Env \<Rightarrow> bool" where
  "scenario_state el env \<longleftrightarrow>
     getOffset (Some el) env = \<lparr>top_offset = 100, left = 50\<rparr> \<and> scrollX env = 0 \<and> scrollY env = 0"

text \<open>
  Two sessions of two events: in the first the document is at rest; in the second the
  callback has scrolled the window by 5 before the second event arrives.
\<close>

definition still_events :: "(Name \<times> MouseEvent \<times> Env) list" where
  "still_events = [(OnMouseDown, event_60_110, scenario_env), (OnMouseMove, event_70_130, scenario_env)]"

definition panned_events :: "(Name \<times> MouseEvent \<times> Env) list" where
  "panned_events =
     [(OnMouseMove, event_60_110, scenario_env), (OnMouseMove, event_70_130, scrollBy5 scenario_env)]"

section \<open>The hook: component state, effect and cleanup\<close>

text \<open>
  A registered listener: the event type, and the handler function, which is the handler
  of that name created by one run of the effect (runs are numbered).
\<close>

type_synonym Listener = "EventKind \<times> nat \<times> Name"

text \<open>
  The state of a mounted component and of what it touches: the two \<^verbatim>\<open>useState\<close>
  cells (a callback set is an object, so it carries its identity), the cleanup function
  returned by the last run of the effect (it closes over the element and the handlers of
  that run), the closures of all runs so far, the listener lists of the elements, the
  document state, and the log of the callback invocations with the run that made them.
\<close>

record Tracker =
  st_domEl :: "element option"
  st_callbacks :: "(nat \<times> MouseEvents) option"
  mounted :: bool
  cleanup :: "(element \<times> nat) option"
  closures :: "nat \<Rightarrow> Binding option"
  next_closure :: nat
  listeners :: "element \<Rightarrow> Listener list"
  dom :: Env
  calls :: "(nat \<times> Invocation) list"

text \<open>
  \<^verbatim>\<open>addEventListener\<close> appends the listener unless the same one is registered
  for the type already; \<^verbatim>\<open>removeEventListener\<close> removes it.
\<close>

definition addEventListener :: "element \<Rightarrow> EventKind \<Rightarrow> nat \<times> Name \<Rightarrow> Tracker \<Rightarrow> Tracker" where
  "addEventListener el ty h t =
     (if (ty, h) \<in> set (listeners t el) then t
      else t\<lparr>listeners := (listeners t)(el := listeners t el @ [(ty, h)])\<rparr>)"

definition removeEventListener :: "element \<Rightarrow> EventKind \<Rightarrow> nat \<times> Name \<Rightarrow> Tracker \<Rightarrow> Tracker" where
  "removeEventListener el ty h t =
     t\<lparr>listeners := (listeners t)(el := remove1 (ty, h) (listeners t el))\<rparr>"

text \<open>
  The body of the effect (lines 81 to 124): it returns at the guard with no cleanup
  function when the callback set or the element is missing; otherwise it creates the
  closure of this run, registers its five handlers and returns the cleanup function.
\<close>

definition effect :: "Tracker \<Rightarrow> Tracker" where
  "effect t =
     (case st_callbacks t of
        None \<Rightarrow> t\<lparr>cleanup := None\<rparr>
      | Some c \<Rightarrow>
          (case st_domEl t of
             None \<Rightarrow> t\<lparr>cleanup := None\<rparr>
           | Some el \<Rightarrow>
               let i = next_closure t;
                   t0 = t\<lparr>closures := (closures t)(i \<mapsto> new_binding el (snd c)),
                          next_closure := Suc i\<rparr>;
                   t1 = addEventListener el mousemove (i, OnMouseMove) t0;
                   t2 = addEventListener el mousedown (i, OnMouseDown) t1;
                   t3 = addEventListener el mouseup (i, OnMouseUp) t2;
                   t4 = addEventListener el mouseenter (i, OnMouseEnter) t3;
                   t5 = addEventListener el mouseleave (i, OnMouseLeave) t4
               in t5\<lparr>cleanup := Some (el, i)\<rparr>))"

text \<open>The cleanup function of a run (lines 117 to 123), if the last run returned one.\<close>

definition run_cleanup :: "Tracker \<Rightarrow> Tracker" where
  "run_cleanup t =
     (case cleanup t of
        None \<Rightarrow> t
      | Some (el, i) \<Rightarrow>
          let t1 = removeEventListener el mousemove (i, OnMouseMove) t;
              t2 = removeEventListener el mousedown (i, OnMouseDown) t1;
              t3 = removeEventListener el mouseup (i, OnMouseUp) t2;
              t4 = removeEventListener el mouseenter (i, OnMouseEnter) t3;
              t5 = removeEventListener el mouseleave (i, OnMouseLeave) t4
          in t5\<lparr>cleanup := None\<rparr>)"

text \<open>
  What the framework does when a dependency of the effect has changed: it runs the
  cleanup function of the previous run, then the effect body.
\<close>

definition rerender :: "Tracker \<Rightarrow> Tracker" where
  "rerender t = effect (run_cleanup t)"

text \<open>
  The two setters the hook returns. A state setter given the value the cell holds already
  (for an object: the same object) changes nothing; an unmounted component ignores it.
  The render that follows a change and the commit of its effect are one step: no event
  is delivered between them.
\<close>

definition setDomEl :: "element option \<Rightarrow> Tracker \<Rightarrow> Tracker" where
  "setDomEl v t =
     (if \<not> mounted t \<or> st_domEl t = v then t else rerender (t\<lparr>st_domEl := v\<rparr>))"

definition setCallbacks :: "(nat \<times> MouseEvents) option \<Rightarrow> Tracker \<Rightarrow> Tracker" where
  "setCallbacks v t =
     (if \<not> mounted t \<or> map_option fst (st_callbacks t) = map_option fst v then t
      else rerender (t\<lparr>st_callbacks := v\<rparr>))"

definition unmount :: "Tracker \<Rightarrow> Tracker" where
  "unmount t = (if mounted t then (run_cleanup t)\<lparr>mounted := False\<rparr> else t)"

text \<open>The first render: both cells are undefined, and the effect runs once.\<close>

definition mount :: "Env \<Rightarrow> Tracker" where
  "mount env =
     effect \<lparr>st_domEl = None, st_callbacks = None, mounted = True, cleanup = None,
             closures = (\<lambda>_. None), next_closure = 0, listeners = (\<lambda>_. []),
             dom = env, calls = []\<rparr>"

text \<open>
  A native event of some type reaching an element: the listeners registered on the
  element for that type run in order of registration, each in the closure it was
  created in.
\<close>

definition call_listener :: "nat \<times> Name \<Rightarrow> MouseEvent \<Rightarrow> Tracker \<Rightarrow> Tracker" where
  "call_listener h e t =
     (case closures t (fst h) of
        None \<Rightarrow> t
      | Some b \<Rightarrow>
          (case handler (snd h) e b (dom t) of
             (invocation, b', env') \<Rightarrow>
               t\<lparr>closures := (closures t)(fst h \<mapsto> b'),
                 dom := env',
                 calls := calls t @ [(fst h, invocation)]\<rparr>))"

definition dispatchEvent :: "element \<Rightarrow> EventKind \<Rightarrow> MouseEvent \<Rightarrow> Tracker \<Rightarrow> Tracker" where
  "dispatchEvent el ty e t =
     fold (\<lambda>l. call_listener (snd l) e) (filter (\<lambda>l. fst l = ty) (listeners t el)) t"

text \<open>
  Everything that can happen to a mounted component: the caller uses a setter, an event
  reaches an element, the document changes by itself (scrolling, layout), the component
  is unmounted.
\<close>

datatype Action =
    SetDomEl "element option"
  | SetCallbacks "(nat \<times> MouseEvents) option"
  | DispatchEvent element EventKind MouseEvent
  | DomChange "Env \<Rightarrow> Env"
  | Unmount

fun step :: "Action \<Rightarrow> Tracker \<Rightarrow> Tracker" where
  "step (SetDomEl v) t = setDomEl v t"
| "step (SetCallbacks v) t = setCallbacks v t"
| "step (DispatchEvent el ty e) t = dispatchEvent el ty e t"
| "step (DomChange f) t = t\<lparr>dom := f (dom t)\<rparr>"
| "step Unmount t = unmount t"

definition run :: "Action list \<Rightarrow> Tracker \<Rightarrow> Tracker" where
  "run acts t = fold step acts t"

text \<open>The five listeners of run \<open>i\<close> of the effect, in the order of registration.\<close>

definition five :: "nat \<Rightarrow> Listener list" where
  "five i =
     [(mousemove, i, OnMouseMove), (mousedown, i, OnMouseDown), (mouseup, i, OnMouseUp),
      (mouseenter, i, OnMouseEnter), (mouseleave, i, OnMouseLeave)]"

text \<open>
  In a log of invocations, a sample carries a delta exactly when the same run of the
  effect made an earlier invocation.
\<close>

definition history_ok :: "(nat \<times> Invocation) list \<Rightarrow> bool" where
  "history_ok cs \<longleftrightarrow>
     (\<forall>n<length cs. (delta (snd (snd (cs ! n))) \<noteq> None) = (\<exists>m<n. fst (cs ! m) = fst (cs ! n)))"

text \<open>The invariant of the component's state.\<close>

definition listeners_inv :: "Tracker \<Rightarrow> bool" where
  "listeners_inv t \<longleftrightarrow>
     (case cleanup t of
        None \<Rightarrow> listeners t = (\<lambda>_. []) \<and>
                (\<not> mounted t \<or> st_domEl t = None \<or> st_callbacks t = None)
      | Some (el, i) \<Rightarrow>
          mounted t \<and> st_domEl t = Some el \<and> listeners t = (\<lambda>_. [])(el := five i) \<and>
          (\<exists>c b. st_callbacks t = Some c \<and> closures t i = Some b \<and>
                 bound_domEl b = el \<and> bound_callbacks b = snd c))"

definition closures_inv :: "Tracker \<Rightarrow> bool" where
  "closures_inv t \<longleftrightarrow>
     (\<forall>i b. closures t i = Some b \<longrightarrow>
        i < next_closure t \<and> (lastPosition b \<noteq> None) = (i \<in> fst ` set (calls t))) \<and>
     (\<forall>c\<in>set (calls t). fst c < next_closure t) \<and>
     history_ok (calls t)"

definition tracker_inv :: "Tracker \<Rightarrow> bool" where
  "tracker_inv t \<longleftrightarrow> listeners_inv t \<and> closures_inv t"

text \<open>
  Two histories of a mounted component: one in which the caller supplies an element but
  never a callback set, and one with a binding, two events, a change of element and a
  third event.
\<close>

definition unbound_actions :: "Action list" where
  "unbound_actions = [SetDomEl (Some 0), DispatchEvent 0 mousemove event_60_110]"

definition example_actions :: "Action list" where
  "example_actions =
     [SetDomEl (Some 0), SetCallbacks (Some (7, idle_callbacks)),
      DispatchEvent 0 mousedown event_60_110, DispatchEvent 0 mousemove event_70_130,
      SetDomEl (Some 1), DispatchEvent 1 mousemove event_60_110]"

text \<open>
  A document state of a legacy engine: the window reports a scroll of 0 while the
  document root reports a vertical scroll of 30 and the body a horizontal scroll of 7;
  the body has a client edge of 2 on both sides.
\<close>

definition legacy_env :: Env where
  "legacy_env =
     \<lparr>getBoundingClientRect = (\<lambda>_. \<lparr>box_top = 100, box_left = 50\<rparr>),
      pageYOffset = 0, pageXOffset = 0, scrollX = 0, scrollY = 0,
      docEl_scrollTop = 30, docEl_scrollLeft = 0,
      body_scrollTop = 0, body_scrollLeft = 7,
      docEl_clientTop = 0, docEl_clientLeft = 0,
      body_clientTop = 2, body_clientLeft = 2\<rparr>"

section \<open>Properties of the Offset Resolver and the Coordinate Mapper\<close>

lemma Math_round_int: "Math_round v \<in> \<int>"
  by (simp add: Math_round_def)

text \<open>
  Claim C4. Called with no element, the Offset Resolver returns top 0 and left 0,
  whatever the scroll and layout state of the document.
\<close>

theorem getOffset_no_element:
  "getOffset None env = \<lparr>top_offset = 0, left = 0\<rparr>"
  by (simp add: getOffset_def)

text \<open>
  Claim C3. For every raw pointer event and every element, the Coordinate Mapper returns
  x = clientX - (resolved left offset) + window.scrollX and
  y = clientY - (resolved top offset) + window.scrollY.
\<close>

theorem mouseEventToCoords_formula:
  "x (mouseEventToCoords domEl env e) = clientX e - left (getOffset domEl env) + scrollX env \<and>
   y (mouseEventToCoords domEl env e) = clientY e - top_offset (getOffset domEl env) + scrollY env"
  by (simp add: mouseEventToCoords_def Let_def)

text \<open>
  Claim C5. For a supplied element, top is the bounding-box top plus the document scroll
  top minus the client-edge top, and left likewise; the scroll offset is the window-level
  one, else the document root's, else the body's; the client edge is the document root's,
  else the body's; and each result is that sum rounded to the nearest integer: an
  integer \<open>n\<close> with \<open>sum - 1/2 < n \<le> sum + 1/2\<close>.
\<close>

theorem getOffset_element:
  "let box = getBoundingClientRect env el;
       scrollTop = (if pageYOffset env \<noteq> 0 then pageYOffset env
                    else if docEl_scrollTop env \<noteq> 0 then docEl_scrollTop env
                    else body_scrollTop env);
       scrollLeft = (if pageXOffset env \<noteq> 0 then pageXOffset env
                     else if docEl_scrollLeft env \<noteq> 0 then docEl_scrollLeft env
                     else body_scrollLeft env);
       clientTop = (if docEl_clientTop env \<noteq> 0 then docEl_clientTop env
                    else body_clientTop env);
       clientLeft = (if docEl_clientLeft env \<noteq> 0 then docEl_clientLeft env
                     else body_clientLeft env);
       t = box_top box + scrollTop - clientTop;
       l = box_left box + scrollLeft - clientLeft;
       r = getOffset (Some el) env
   in top_offset r \<in> \<int> \<and> t - 1 / 2 < top_offset r \<and> top_offset r \<le> t + 1 / 2 \<and>
      left r \<in> \<int> \<and> l - 1 / 2 < left r \<and> left r \<le> l + 1 / 2"
proof -
  have near: "v - 1 / 2 < Math_round v \<and> Math_round v \<le> v + 1 / 2" for v
    unfolding Math_round_def by linarith
  show ?thesis
    unfolding Let_def getOffset_def js_or_def
    by (simp add: Math_round_int near)
qed

text \<open>
  Claim C10. The fallback chains of the Offset Resolver select by truthiness: when
  window.pageYOffset is 0 the document root's scrollTop is used, and when that is 0 too
  the body's scrollTop is used (likewise for the left values); the client edge is the
  document root's unless it is 0, then the body's. So there are states with a window-level
  scroll of 0 and a nonzero document-root scroll where the result is computed from the
  nonzero value and differs from the one computed from 0.
\<close>

theorem getOffset_truthiness:
  "(pageYOffset env = 0 \<longrightarrow> docEl_scrollTop env \<noteq> 0 \<longrightarrow>
      top_offset (getOffset (Some el) env) =
        Math_round (box_top (getBoundingClientRect env el) + docEl_scrollTop env
                    - js_or (docEl_clientTop env) (body_clientTop env))) \<and>
   (pageYOffset env = 0 \<longrightarrow> docEl_scrollTop env = 0 \<longrightarrow>
      top_offset (getOffset (Some el) env) =
        Math_round (box_top (getBoundingClientRect env el) + body_scrollTop env
                    - js_or (docEl_clientTop env) (body_clientTop env))) \<and>
   (pageXOffset env = 0 \<longrightarrow> docEl_scrollLeft env \<noteq> 0 \<longrightarrow>
      left (getOffset (Some el) env) =
        Math_round (box_left (getBoundingClientRect env el) + docEl_scrollLeft env
                    - js_or (docEl_clientLeft env) (body_clientLeft env))) \<and>
   (pageXOffset env = 0 \<longrightarrow> docEl_scrollLeft env = 0 \<longrightarrow>
      left (getOffset (Some el) env) =
        Math_round (box_left (getBoundingClientRect env el) + body_scrollLeft env
                    - js_or (docEl_clientLeft env) (body_clientLeft env))) \<and>
   (docEl_clientTop env = 0 \<longrightarrow>
      top_offset (getOffset (Some el) env) =
        Math_round (box_top (getBoundingClientRect env el)
                    + js_or (js_or (pageYOffset env) (docEl_scrollTop env)) (body_scrollTop env)
                    - body_clientTop env)) \<and>
   (docEl_clientLeft env = 0 \<longrightarrow>
      left (getOffset (Some el) env) =
        Math_round (box_left (getBoundingClientRect env el)
                    + js_or (js_or (pageXOffset env) (docEl_scrollLeft env)) (body_scrollLeft env)
                    - body_clientLeft env)) \<and>
   (\<exists>env' el'. pageYOffset env' = 0 \<and> docEl_scrollTop env' \<noteq> 0 \<and>
      top_offset (getOffset (Some el') env') \<noteq>
        Math_round (box_top (getBoundingClientRect env' el') + 0
                    - js_or (docEl_clientTop env') (body_clientTop env')))"
proof -
  have ex: "\<exists>env' el'. pageYOffset env' = 0 \<and> docEl_scrollTop env' \<noteq> 0 \<and>
      top_offset (getOffset (Some el') env') \<noteq>
        Math_round (box_top (getBoundingClientRect env' el') + 0
                    - js_or (docEl_clientTop env') (body_clientTop env'))"
    apply (rule exI [of _ legacy_env])
    apply (rule exI [of _ 0])
    apply (simp add: legacy_env_def getOffset_def js_or_def Math_round_def)
    done
  show ?thesis
    using ex by (simp add: getOffset_def js_or_def Let_def)
qed

theorem getOffset_truthiness_witness:
  "pageYOffset legacy_env = 0 \<and> docEl_scrollTop legacy_env \<noteq> 0 \<and>
   pageXOffset legacy_env = 0 \<and> docEl_scrollLeft legacy_env = 0 \<and>
   docEl_clientTop legacy_env = 0 \<and> docEl_clientLeft legacy_env = 0 \<and>
   top_offset (getOffset (Some 0) legacy_env) = 128 \<and>
   left (getOffset (Some 0) legacy_env) = 55"
  using getOffset_truthiness [of legacy_env 0]
  by (simp add: legacy_env_def js_or_def Math_round_def)

section \<open>Properties of the handlers\<close>

lemma handler_unfold:
  "handler n e b env =
     (let arg = parseMousePosition (Some (bound_domEl b)) env e (lastPosition b);
          env' = callback_named n (bound_callbacks b) arg env
      in ((n, arg),
          b\<lparr>lastPosition := Some (mouseEventToCoords (Some (bound_domEl b)) env' e)\<rparr>,
          env'))"
  by (cases n)
     (simp_all add: onMouseMove_handler_def onMouseDown_handler_def onMouseUp_handler_def
        onMouseEnter_handler_def onMouseLeave_handler_def)

lemma parse_position:
  "position (parseMousePosition d env e m) = mouseEventToCoords d env e"
  by (simp add: parseMousePosition_def Let_def)

lemma parse_delta:
  "delta (parseMousePosition d env e m) =
     (case m of None \<Rightarrow> None | Some l \<Rightarrow> Some (coords_minus (mouseEventToCoords d env e) l))"
  by (simp add: parseMousePosition_def Let_def coords_minus_def split: option.splits)

lemma session_length: "length (session b evs) = length evs"
  by (induction evs arbitrary: b) (auto simp: handler_unfold Let_def)

lemma session_nth:
  "k < length evs \<Longrightarrow> evs ! k = (n, e, env) \<Longrightarrow>
   fst (session b evs ! k) =
     parseMousePosition (Some (bound_domEl b)) env e
       (if k = 0 then lastPosition b else snd (session b evs ! (k - 1))) \<and>
   snd (session b evs ! k) =
     Some (mouseEventToCoords (Some (bound_domEl b))
             (callback_named n (bound_callbacks b) (fst (session b evs ! k)) env) e)"
proof (induction evs arbitrary: b k)
  case Nil
  then show ?case by simp
next
  case (Cons ev evs)
  obtain n0 e0 env0 where ev: "ev = (n0, e0, env0)" by (cases ev)
  show ?case
  proof (cases k)
    case 0
    with Cons.prems ev show ?thesis by (simp add: handler_unfold Let_def)
  next
    case (Suc j)
    define b' where "b' = fst (snd (handler n0 e0 b env0))"
    have b': "bound_domEl b' = bound_domEl b" "bound_callbacks b' = bound_callbacks b"
      "lastPosition b' = snd (session b (ev # evs) ! 0)"
      by (simp_all add: b'_def ev handler_unfold Let_def)
    have step: "session b (ev # evs) ! Suc i = session b' evs ! i" for i
      by (simp add: b'_def ev handler_unfold Let_def)
    from Cons.prems Suc have "j < length evs" "evs ! j = (n, e, env)" by simp_all
    from Cons.IH [OF this, of b'] show ?thesis
      unfolding Suc step b'
      by (cases j) (simp_all add: step b')
  qed
qed

lemma scenario_offset:
  "getOffset (Some el) scenario_env = \<lparr>top_offset = 100, left = 50\<rparr>"
  by (simp add: getOffset_def scenario_env_def js_or_def Math_round_def)

lemma scenario_coords:
  "mouseEventToCoords (Some el) scenario_env e = \<lparr>x = clientX e - 50, y = clientY e - 100\<rparr>"
  by (simp add: mouseEventToCoords_def scenario_offset) (simp add: scenario_env_def)

lemma scrolled_offset:
  "getOffset (Some el) (scrollBy5 scenario_env) = \<lparr>top_offset = 100, left = 50\<rparr>"
  by (simp add: getOffset_def scenario_env_def scrollBy5_def js_or_def Math_round_def)

lemma scrolled_coords:
  "mouseEventToCoords (Some el) (scrollBy5 scenario_env) e =
     \<lparr>x = clientX e - 45, y = clientY e - 100\<rparr>"
  by (simp add: mouseEventToCoords_def scrolled_offset) (simp add: scenario_env_def scrollBy5_def)

lemma new_binding_sel:
  "bound_domEl (new_binding el cbs) = el"
  "bound_callbacks (new_binding el cbs) = cbs"
  "lastPosition (new_binding el cbs) = None"
  by (simp_all add: new_binding_def)

lemmas scenario_simps =
  scenario_coords scrolled_coords new_binding_sel idle_callbacks_def panning_callbacks_def
  parse_position parse_delta coords_minus_def event_60_110_def event_70_130_def

text \<open>
  Claim C6, as amended. For each of the five handlers: the sample has the position given
  by the Coordinate Mapper and the displacement from the session state when that is set
  (absent otherwise); the callback of the same name, and no other, is applied to that
  sample; then the session state is set to the position of the same event measured again
  by the Coordinate Mapper in the document state the callback left. That is the position
  delivered in the sample whenever the callback left the mapper's result for the event
  unchanged. The handler registered for each event type is the one of the matching name.
\<close>

theorem handler_sample_then_record:
  "let el = bound_domEl b;
       current = mouseEventToCoords (Some el) env e;
       sample = \<lparr>position = current,
                 delta = (case lastPosition b of
                            None \<Rightarrow> None
                          | Some l \<Rightarrow> Some (coords_minus current l))\<rparr>;
       env' = callback_named n (bound_callbacks b) sample env
   in handler n e b env =
        ((n, sample), b\<lparr>lastPosition := Some (mouseEventToCoords (Some el) env' e)\<rparr>, env') \<and>
      (mouseEventToCoords (Some el) env' e = current \<longrightarrow>
         lastPosition (fst (snd (handler n e b env))) = Some (position sample)) \<and>
      callback_named (registered mousemove) = onMouseMove \<and>
      callback_named (registered mousedown) = onMouseDown \<and>
      callback_named (registered mouseup) = onMouseUp \<and>
      callback_named (registered mouseenter) = onMouseEnter \<and>
      callback_named (registered mouseleave) = onMouseLeave"
proof -
  have arg: "parseMousePosition (Some (bound_domEl b)) env e (lastPosition b) =
      \<lparr>position = mouseEventToCoords (Some (bound_domEl b)) env e,
       delta = (case lastPosition b of
                  None \<Rightarrow> None
                | Some l \<Rightarrow> Some (coords_minus (mouseEventToCoords (Some (bound_domEl b)) env e) l))\<rparr>"
    by (simp add: parseMousePosition_def Let_def coords_minus_def split: option.splits)
  show ?thesis
    unfolding Let_def handler_unfold arg by simp
qed

theorem handler_sample_then_record_witness:
  "handler OnMouseDown event_60_110 (new_binding 0 idle_callbacks) scenario_env =
     ((OnMouseDown, \<lparr>position = \<lparr>x = 10, y = 10\<rparr>, delta = None\<rparr>),
      (new_binding 0 idle_callbacks)\<lparr>lastPosition := Some \<lparr>x = 10, y = 10\<rparr>\<rparr>,
      scenario_env) \<and>
   lastPosition (fst (snd (handler OnMouseDown event_60_110 (new_binding 0 idle_callbacks) scenario_env)))
     = Some \<lparr>x = 10, y = 10\<rparr>"
  using handler_sample_then_record
    [of "new_binding 0 idle_callbacks" scenario_env event_60_110 OnMouseDown]
  by (simp add: Let_def scenario_simps del: handler.simps)

text \<open>
  Claim C6 as stated fails: under a callback that scrolls the window, the session state
  after the handler is not the position that was delivered in the sample.
\<close>

theorem handler_record_counterexample:
  "lastPosition (fst (snd (handler OnMouseMove event_60_110 (new_binding 0 panning_callbacks) scenario_env)))
     = Some \<lparr>x = 15, y = 10\<rparr> \<and>
   position (snd (fst (handler OnMouseMove event_60_110 (new_binding 0 panning_callbacks) scenario_env)))
     = \<lparr>x = 10, y = 10\<rparr> \<and>
   lastPosition (fst (snd (handler OnMouseMove event_60_110 (new_binding 0 panning_callbacks) scenario_env)))
     \<noteq> Some (position (snd (fst (handler OnMouseMove event_60_110 (new_binding 0 panning_callbacks) scenario_env))))"
  by (simp add: handler_unfold Let_def scenario_simps del: handler.simps)

section \<open>Sessions of one binding\<close>

lemma still_session:
  "session (new_binding 0 idle_callbacks) still_events =
     [(\<lparr>position = \<lparr>x = 10, y = 10\<rparr>, delta = None\<rparr>, Some \<lparr>x = 10, y = 10\<rparr>),
      (\<lparr>position = \<lparr>x = 20, y = 30\<rparr>, delta = Some \<lparr>x = 10, y = 20\<rparr>\<rparr>, Some \<lparr>x = 20, y = 30\<rparr>)]"
  by (simp add: still_events_def handler_unfold Let_def parseMousePosition_def scenario_simps
        del: handler.simps)

lemma scrolled_twice_coords:
  "mouseEventToCoords (Some el) (scrollBy5 (scrollBy5 scenario_env)) e =
     \<lparr>x = clientX e - 40, y = clientY e - 100\<rparr>"
  by (simp add: mouseEventToCoords_def getOffset_def scenario_env_def scrollBy5_def js_or_def
        Math_round_def)

lemma panned_session:
  "session (new_binding 0 panning_callbacks) panned_events =
     [(\<lparr>position = \<lparr>x = 10, y = 10\<rparr>, delta = None\<rparr>, Some \<lparr>x = 15, y = 10\<rparr>),
      (\<lparr>position = \<lparr>x = 25, y = 30\<rparr>, delta = Some \<lparr>x = 10, y = 20\<rparr>\<rparr>, Some \<lparr>x = 30, y = 30\<rparr>)]"
  by (simp add: panned_events_def handler_unfold Let_def parseMousePosition_def scenario_simps
        scrolled_twice_coords del: handler.simps)

text \<open>
  Claim C1, as amended. In a session that starts with the session state unset, every
  event yields one sample; the first sample has no delta; the position of each sample is
  the Coordinate Mapper's result for its event; after each event the session state holds
  the position of that event measured again once its callback has returned; and the delta
  of every later sample is its position minus that stored value, componentwise. Whenever
  the stored value is the position delivered for the previous event, the delta is the
  current position minus the previous position.
\<close>

theorem session_deltas:
  assumes "lastPosition b = None"
  shows "length (session b evs) = length evs \<and>
    (evs \<noteq> [] \<longrightarrow> delta (fst (session b evs ! 0)) = None) \<and>
    (\<forall>k n e env. k < length evs \<longrightarrow> evs ! k = (n, e, env) \<longrightarrow>
       position (fst (session b evs ! k)) = mouseEventToCoords (Some (bound_domEl b)) env e \<and>
       snd (session b evs ! k) =
         Some (mouseEventToCoords (Some (bound_domEl b))
                 (callback_named n (bound_callbacks b) (fst (session b evs ! k)) env) e)) \<and>
    (\<forall>k. Suc k < length evs \<longrightarrow>
       (\<exists>l. snd (session b evs ! k) = Some l \<and>
            delta (fst (session b evs ! Suc k)) =
              Some (coords_minus (position (fst (session b evs ! Suc k))) l))) \<and>
    (\<forall>k. Suc k < length evs \<longrightarrow>
       snd (session b evs ! k) = Some (position (fst (session b evs ! k))) \<longrightarrow>
       delta (fst (session b evs ! Suc k)) =
         Some (coords_minus (position (fst (session b evs ! Suc k)))
                 (position (fst (session b evs ! k)))))"
proof -
  have first: "delta (fst (session b evs ! 0)) = None" if "evs \<noteq> []"
  proof -
    obtain n e env where "evs ! 0 = (n, e, env)" by (cases "evs ! 0")
    moreover from that have "0 < length evs" by simp
    ultimately show ?thesis
      using session_nth [of 0 evs n e env b] assms by (simp add: parse_delta)
  qed
  have each: "position (fst (session b evs ! k)) = mouseEventToCoords (Some (bound_domEl b)) env e \<and>
       snd (session b evs ! k) =
         Some (mouseEventToCoords (Some (bound_domEl b))
                 (callback_named n (bound_callbacks b) (fst (session b evs ! k)) env) e)"
    if "k < length evs" "evs ! k = (n, e, env)" for k n e env
    using session_nth [OF that, of b] by (simp add: parse_position)
  have later: "\<exists>l. snd (session b evs ! k) = Some l \<and>
            delta (fst (session b evs ! Suc k)) =
              Some (coords_minus (position (fst (session b evs ! Suc k))) l)"
    if "Suc k < length evs" for k
  proof -
    obtain n e env where k: "evs ! k = (n, e, env)" by (cases "evs ! k")
    obtain n' e' env' where k': "evs ! Suc k = (n', e', env')" by (cases "evs ! Suc k")
    from that have lt: "k < length evs" by simp
    from session_nth [OF lt k, of b] obtain l where l: "snd (session b evs ! k) = Some l"
      by blast
    from session_nth [OF that k', of b] l
    have "delta (fst (session b evs ! Suc k)) =
        Some (coords_minus (mouseEventToCoords (Some (bound_domEl b)) env' e') l)"
      by (simp add: parse_delta)
    moreover from each [OF that k']
    have "position (fst (session b evs ! Suc k)) = mouseEventToCoords (Some (bound_domEl b)) env' e'"
      by simp
    ultimately show ?thesis using l by simp
  qed
  have same: "delta (fst (session b evs ! Suc k)) =
         Some (coords_minus (position (fst (session b evs ! Suc k)))
                 (position (fst (session b evs ! k))))"
    if "Suc k < length evs" "snd (session b evs ! k) = Some (position (fst (session b evs ! k)))" for k
    using later [OF that(1)] that(2) by auto
  show ?thesis
    using first each later same by (simp add: session_length)
qed

theorem session_deltas_witness:
  "lastPosition (new_binding 0 idle_callbacks) = None \<and>
   length (session (new_binding 0 idle_callbacks) still_events) = 2 \<and>
   delta (fst (session (new_binding 0 idle_callbacks) still_events ! 0)) = None \<and>
   snd (session (new_binding 0 idle_callbacks) still_events ! 0) = Some \<lparr>x = 10, y = 10\<rparr> \<and>
   position (fst (session (new_binding 0 idle_callbacks) still_events ! 1)) = \<lparr>x = 20, y = 30\<rparr> \<and>
   delta (fst (session (new_binding 0 idle_callbacks) still_events ! 1)) = Some \<lparr>x = 10, y = 20\<rparr>"
  using session_deltas [of "new_binding 0 idle_callbacks" still_events]
  by (simp add: still_session new_binding_sel)

text \<open>
  Claim C1 as stated fails: when the callback of the first event scrolls the window, the
  delta of the second event is not its position minus the position delivered for the
  first event.
\<close>

theorem session_deltas_counterexample:
  "position (fst (session (new_binding 0 panning_callbacks) panned_events ! 0)) = \<lparr>x = 10, y = 10\<rparr> \<and>
   position (fst (session (new_binding 0 panning_callbacks) panned_events ! 1)) = \<lparr>x = 25, y = 30\<rparr> \<and>
   delta (fst (session (new_binding 0 panning_callbacks) panned_events ! 1)) = Some \<lparr>x = 10, y = 20\<rparr> \<and>
   delta (fst (session (new_binding 0 panning_callbacks) panned_events ! 1)) \<noteq>
     Some (coords_minus (position (fst (session (new_binding 0 panning_callbacks) panned_events ! 1)))
             (position (fst (session (new_binding 0 panning_callbacks) panned_events ! 0))))"
  by (simp add: panned_session coords_minus_def)

text \<open>
  Claim C9. For an element whose resolved offset is left 50 and top 100 in an unscrolled
  window (before the first event, after its callback and at the second event): a first
  event at viewport (60,110) yields position (10,10) with no delta, and the next event of
  the session at viewport (70,130) yields position (20,30) with delta (10,20).
\<close>

theorem scenario_two_events:
  assumes "lastPosition b = None"
    and "scenario_state (bound_domEl b) env1"
    and "scenario_state (bound_domEl b)
           (callback_named n1 (bound_callbacks b) \<lparr>position = \<lparr>x = 10, y = 10\<rparr>, delta = None\<rparr> env1)"
    and "scenario_state (bound_domEl b) env2"
  shows "map fst (session b [(n1, event_60_110, env1), (n2, event_70_130, env2)]) =
     [\<lparr>position = \<lparr>x = 10, y = 10\<rparr>, delta = None\<rparr>,
      \<lparr>position = \<lparr>x = 20, y = 30\<rparr>, delta = Some \<lparr>x = 10, y = 20\<rparr>\<rparr>]"
proof -
  have coords: "mouseEventToCoords (Some (bound_domEl b)) env e = \<lparr>x = clientX e - 50, y = clientY e - 100\<rparr>"
    if "scenario_state (bound_domEl b) env" for env e
    using that by (simp add: scenario_state_def mouseEventToCoords_def)
  have first: "parseMousePosition (Some (bound_domEl b)) env1 event_60_110 None =
      \<lparr>position = \<lparr>x = 10, y = 10\<rparr>, delta = None\<rparr>"
    by (simp add: parseMousePosition_def coords [OF assms(2)] event_60_110_def)
  have second: "parseMousePosition (Some (bound_domEl b)) env2 event_70_130 (Some \<lparr>x = 10, y = 10\<rparr>) =
      \<lparr>position = \<lparr>x = 20, y = 30\<rparr>, delta = Some \<lparr>x = 10, y = 20\<rparr>\<rparr>"
    by (simp add: parseMousePosition_def coords [OF assms(4)] event_70_130_def)
  have stored: "mouseEventToCoords (Some (bound_domEl b))
      (callback_named n1 (bound_callbacks b) \<lparr>position = \<lparr>x = 10, y = 10\<rparr>, delta = None\<rparr> env1)
      event_60_110 = \<lparr>x = 10, y = 10\<rparr>"
    by (simp add: coords [OF assms(3)] event_60_110_def)
  show ?thesis
    by (simp add: handler_unfold Let_def assms(1) first second stored del: handler.simps)
qed

theorem scenario_two_events_witness:
  "lastPosition (new_binding 0 idle_callbacks) = None \<and>
   scenario_state 0 scenario_env \<and>
   map fst (session (new_binding 0 idle_callbacks)
              [(OnMouseDown, event_60_110, scenario_env), (OnMouseMove, event_70_130, scenario_env)]) =
     [\<lparr>position = \<lparr>x = 10, y = 10\<rparr>, delta = None\<rparr>,
      \<lparr>position = \<lparr>x = 20, y = 30\<rparr>, delta = Some \<lparr>x = 10, y = 20\<rparr>\<rparr>]"
proof -
  have st: "scenario_state 0 scenario_env"
    by (simp add: scenario_state_def scenario_offset) (simp add: scenario_env_def)
  have "scenario_state (bound_domEl (new_binding 0 idle_callbacks)) scenario_env"
    and "scenario_state (bound_domEl (new_binding 0 idle_callbacks))
           (callback_named OnMouseDown (bound_callbacks (new_binding 0 idle_callbacks))
              \<lparr>position = \<lparr>x = 10, y = 10\<rparr>, delta = None\<rparr> scenario_env)"
    using st by (simp_all add: new_binding_sel idle_callbacks_def)
  from scenario_two_events [OF _ this(1) this(2) this(1), of OnMouseMove] st
  show ?thesis by (simp add: new_binding_sel)
qed

section \<open>The invariant of the component's state\<close>

lemma effect_unbound:
  "st_callbacks t = None \<or> st_domEl t = None \<Longrightarrow> effect t = t\<lparr>cleanup := None\<rparr>"
  by (auto simp: effect_def split: option.splits)

lemma effect_bound:
  assumes "st_callbacks t = Some c" "st_domEl t = Some el" "listeners t = (\<lambda>_. [])"
  shows "effect t =
     t\<lparr>closures := (closures t)(next_closure t \<mapsto> new_binding el (snd c)),
       next_closure := Suc (next_closure t),
       listeners := (\<lambda>_. [])(el := five (next_closure t)),
       cleanup := Some (el, next_closure t)\<rparr>"
  using assms by (simp add: effect_def addEventListener_def five_def Let_def)

lemma run_cleanup_none: "cleanup t = None \<Longrightarrow> run_cleanup t = t"
  by (simp add: run_cleanup_def)

lemma run_cleanup_some:
  assumes "cleanup t = Some (el, i)" "listeners t = (\<lambda>_. [])(el := five i)"
  shows "run_cleanup t = t\<lparr>listeners := (\<lambda>_. []), cleanup := None\<rparr>"
proof -
  have "((\<lambda>_. [])(el := [])) = (\<lambda>_. ([] :: Listener list))" by auto
  with assms show ?thesis
    by (simp add: run_cleanup_def removeEventListener_def five_def Let_def)
qed

lemma history_ok_append:
  "history_ok (cs @ [c]) \<longleftrightarrow>
     history_ok cs \<and> (delta (snd (snd c)) \<noteq> None) = (fst c \<in> fst ` set cs)"
proof -
  define Q where "Q n \<longleftrightarrow>
    (delta (snd (snd ((cs @ [c]) ! n))) \<noteq> None) =
      (\<exists>m<n. fst ((cs @ [c]) ! m) = fst ((cs @ [c]) ! n))" for n
  define R where "R n \<longleftrightarrow>
    (delta (snd (snd (cs ! n))) \<noteq> None) = (\<exists>m<n. fst (cs ! m) = fst (cs ! n))" for n
  have last: "(\<exists>m<length cs. fst ((cs @ [c]) ! m) = fst c) = (fst c \<in> fst ` set cs)"
  proof
    assume "\<exists>m<length cs. fst ((cs @ [c]) ! m) = fst c"
    then obtain m where "m < length cs" "fst (cs ! m) = fst c"
      by (auto simp: nth_append)
    then have "cs ! m \<in> set cs" "fst c = fst (cs ! m)" by simp_all
    then show "fst c \<in> fst ` set cs" by (rule_tac image_eqI)
  next
    assume "fst c \<in> fst ` set cs"
    then obtain p where "p \<in> set cs" "fst c = fst p" by auto
    then obtain m where "m < length cs" "cs ! m = p" by (auto simp: in_set_conv_nth)
    with \<open>fst c = fst p\<close> show "\<exists>m<length cs. fst ((cs @ [c]) ! m) = fst c"
      by (auto simp: nth_append)
  qed
  have early: "Q n = R n" if "n < length cs" for n
  proof -
    have "(cs @ [c]) ! m = cs ! m" if "m < n" for m
      using that \<open>n < length cs\<close> by (simp add: nth_append)
    then have "(\<exists>m<n. fst ((cs @ [c]) ! m) = fst (cs ! n)) = (\<exists>m<n. fst (cs ! m) = fst (cs ! n))"
      by metis
    with that show ?thesis by (simp add: Q_def R_def nth_append)
  qed
  have final: "Q (length cs) = ((delta (snd (snd c)) \<noteq> None) = (fst c \<in> fst ` set cs))"
    by (simp add: Q_def last)
  have "history_ok (cs @ [c]) = (\<forall>n<Suc (length cs). Q n)"
    by (simp add: history_ok_def Q_def)
  also have "\<dots> = ((\<forall>n<length cs. Q n) \<and> Q (length cs))"
    by (auto simp: less_Suc_eq)
  also have "(\<forall>n<length cs. Q n) = (\<forall>n<length cs. R n)"
    using early by blast
  also have "(\<forall>n<length cs. R n) = history_ok cs"
    by (simp add: history_ok_def R_def)
  finally show ?thesis by (simp add: final)
qed

lemma run_cleanup_result:
  assumes "case cleanup u of
             None \<Rightarrow> listeners u = (\<lambda>_. [])
           | Some (el, i) \<Rightarrow> listeners u = (\<lambda>_. [])(el := five i)"
  shows "run_cleanup u = u\<lparr>listeners := (\<lambda>_. []), cleanup := None\<rparr>"
proof (cases "cleanup u")
  case None
  with assms show ?thesis by (cases u) (simp add: run_cleanup_none)
next
  case (Some p)
  obtain el i where p: "p = (el, i)" by (cases p)
  from assms Some p have "listeners u = (\<lambda>_. [])(el := five i)" by simp
  with Some p show ?thesis by (simp add: run_cleanup_some)
qed

lemma effect_inv:
  assumes "listeners u = (\<lambda>_. [])" "mounted u" "closures_inv u"
  shows "tracker_inv (effect u)"
proof (cases "st_callbacks u = None \<or> st_domEl u = None")
  case True
  then have "effect u = u\<lparr>cleanup := None\<rparr>" by (rule effect_unbound)
  with True assms show ?thesis
    by (auto simp: tracker_inv_def listeners_inv_def closures_inv_def)
next
  case False
  then obtain c el where ce: "st_callbacks u = Some c" "st_domEl u = Some el" by auto
  note eq = effect_bound [OF ce assms(1)]
  have fresh: "next_closure u \<notin> fst ` set (calls u)"
    using assms(3) by (auto simp: closures_inv_def)
  have "listeners_inv (effect u)"
    using assms(2) ce by (simp add: eq listeners_inv_def new_binding_def)
  moreover have "closures_inv (effect u)"
    using assms(3) fresh
    by (auto simp: eq closures_inv_def new_binding_def less_Suc_eq)
  ultimately show ?thesis by (simp add: tracker_inv_def)
qed

lemma inv_mount: "tracker_inv (mount env)"
  unfolding mount_def
  by (rule effect_inv) (simp_all add: closures_inv_def history_ok_def)

lemma listeners_shape:
  "listeners_inv t \<Longrightarrow>
   (case cleanup t of
      None \<Rightarrow> listeners t = (\<lambda>_. [])
    | Some (el, i) \<Rightarrow> listeners t = (\<lambda>_. [])(el := five i))"
  by (auto simp: listeners_inv_def split: option.splits)

lemma inv_rerender:
  assumes "tracker_inv t" "mounted t"
    and "cleanup u = cleanup t" "listeners u = listeners t" "mounted u = mounted t"
    and "closures u = closures t" "next_closure u = next_closure t" "calls u = calls t"
  shows "tracker_inv (rerender u)"
proof -
  from assms(1) have "listeners_inv t" "closures_inv t" by (simp_all add: tracker_inv_def)
  from listeners_shape [OF this(1)] assms(3,4)
  have "run_cleanup u = u\<lparr>listeners := (\<lambda>_. []), cleanup := None\<rparr>"
    by (intro run_cleanup_result) (auto split: option.splits)
  moreover have "closures_inv (u\<lparr>listeners := (\<lambda>_. []), cleanup := None\<rparr>)"
    using \<open>closures_inv t\<close> assms(6-8) by (simp add: closures_inv_def)
  ultimately show ?thesis
    unfolding rerender_def using assms(2,5) by (intro effect_inv) simp_all
qed

lemma inv_setDomEl: "tracker_inv t \<Longrightarrow> tracker_inv (setDomEl v t)"
  by (auto simp: setDomEl_def intro: inv_rerender)

lemma inv_setCallbacks: "tracker_inv t \<Longrightarrow> tracker_inv (setCallbacks v t)"
  by (auto simp: setCallbacks_def intro!: inv_rerender)

lemma inv_unmount: "tracker_inv t \<Longrightarrow> tracker_inv (unmount t)"
proof -
  assume inv: "tracker_inv t"
  then have "listeners_inv t" "closures_inv t" by (simp_all add: tracker_inv_def)
  from run_cleanup_result [OF listeners_shape [OF this(1)]] this(2)
  show ?thesis
    using inv by (simp add: unmount_def tracker_inv_def listeners_inv_def closures_inv_def)
qed

lemma dispatch_unbound:
  "listeners t = (\<lambda>_. []) \<Longrightarrow> dispatchEvent el ty e t = t"
  by (simp add: dispatchEvent_def)

lemma dispatch_bound:
  "listeners t = (\<lambda>_. [])(el' := five i) \<Longrightarrow>
   dispatchEvent el ty e t = (if el = el' then call_listener (i, registered ty) e t else t)"
  by (cases ty) (simp_all add: dispatchEvent_def five_def)

lemma call_listener_result:
  assumes "closures t i = Some b"
  shows "call_listener (i, n) e t =
     t\<lparr>closures := (closures t)(i \<mapsto> fst (snd (handler n e b (dom t)))),
       dom := snd (snd (handler n e b (dom t))),
       calls := calls t @ [(i, fst (handler n e b (dom t)))]\<rparr>"
  using assms by (simp add: call_listener_def split: prod.splits)

lemma inv_call_listener:
  assumes "tracker_inv t" "cleanup t = Some (el, i)"
  shows "tracker_inv (call_listener (i, n) e t)"
proof -
  from assms have li: "listeners_inv t" and ci: "closures_inv t" by (simp_all add: tracker_inv_def)
  from li assms(2) obtain b where b: "closures t i = Some b"
    by (auto simp: listeners_inv_def)
  note eq = call_listener_result [OF b]
  have h: "fst (handler n e b (dom t)) = (n, parseMousePosition (Some (bound_domEl b)) (dom t) e (lastPosition b))"
    "bound_domEl (fst (snd (handler n e b (dom t)))) = bound_domEl b"
    "bound_callbacks (fst (snd (handler n e b (dom t)))) = bound_callbacks b"
    "lastPosition (fst (snd (handler n e b (dom t)))) \<noteq> None"
    by (simp_all add: handler_unfold Let_def)
  from ci b have lp: "(lastPosition b \<noteq> None) = (i \<in> fst ` set (calls t))"
    unfolding closures_inv_def by blast
  have d: "(delta (parseMousePosition (Some (bound_domEl b)) (dom t) e (lastPosition b)) \<noteq> None)
      = (i \<in> fst ` set (calls t))"
    unfolding lp [symmetric] by (simp add: parse_delta split: option.splits)
  have "listeners_inv (call_listener (i, n) e t)"
    using li assms(2) b unfolding eq listeners_inv_def by (auto simp: h)
  moreover have "closures_inv (call_listener (i, n) e t)"
  proof -
    define b' where "b' = fst (snd (handler n e b (dom t)))"
    define c where "c = (i, fst (handler n e b (dom t)))"
    have b': "lastPosition b' \<noteq> None" by (simp add: b'_def h)
    have c: "fst c = i" "(delta (snd (snd c)) \<noteq> None) = (fst c \<in> fst ` set (calls t))"
      unfolding c_def using d by (simp_all only: fst_conv snd_conv h)
    from ci have bound: "\<And>j bj. closures t j = Some bj \<Longrightarrow> j < next_closure t"
      and seen: "\<And>j bj. closures t j = Some bj \<Longrightarrow>
                   (lastPosition bj \<noteq> None) = (j \<in> fst ` set (calls t))"
      and old: "\<And>p. p \<in> set (calls t) \<Longrightarrow> fst p < next_closure t"
      and hist: "history_ok (calls t)"
      unfolding closures_inv_def by blast+
    have 1: "j < next_closure t \<and> (lastPosition bj \<noteq> None) = (j \<in> fst ` set (calls t @ [c]))"
      if "((closures t)(i \<mapsto> b')) j = Some bj" for j bj
    proof (cases "j = i")
      case True
      with that have "bj = b'" by simp
      with True b' c(1) bound [OF b] show ?thesis by simp
    next
      case False
      with that have "closures t j = Some bj" by simp
      from bound [OF this] seen [OF this] False c(1) show ?thesis by auto
    qed
    have 2: "fst p < next_closure t" if "p \<in> set (calls t @ [c])" for p
    proof (cases "p = c")
      case True
      with bound [OF b] c(1) show ?thesis by simp
    next
      case False
      with that have "p \<in> set (calls t)" by simp
      then show ?thesis by (rule old)
    qed
    have 3: "history_ok (calls t @ [c])"
      using hist c(2) by (simp only: history_ok_append)
    have "call_listener (i, n) e t =
        t\<lparr>closures := (closures t)(i \<mapsto> b'), dom := snd (snd (handler n e b (dom t))),
          calls := calls t @ [c]\<rparr>"
      by (simp add: eq b'_def c_def)
    then show ?thesis
      unfolding closures_inv_def using 1 2 3 by simp
  qed
  ultimately show ?thesis by (simp add: tracker_inv_def)
qed

lemma dispatch_cases:
  assumes "tracker_inv t"
  shows "dispatchEvent el ty e t =
     (case cleanup t of
        None \<Rightarrow> t
      | Some (el', i) \<Rightarrow> if el = el' then call_listener (i, registered ty) e t else t)"
  using assms
  by (auto simp: tracker_inv_def listeners_inv_def dispatch_unbound dispatch_bound
      split: option.splits)

lemma inv_dispatch: "tracker_inv t \<Longrightarrow> tracker_inv (dispatchEvent el ty e t)"
  by (auto simp: dispatch_cases inv_call_listener split: option.splits)

lemma inv_step: "tracker_inv t \<Longrightarrow> tracker_inv (step a t)"
proof (cases a)
  case (DomChange f)
  assume "tracker_inv t"
  then show ?thesis
    by (auto simp: DomChange tracker_inv_def listeners_inv_def closures_inv_def
        split: option.splits)
qed (simp_all add: inv_setDomEl inv_setCallbacks inv_dispatch inv_unmount)

lemma inv_run: "tracker_inv t \<Longrightarrow> tracker_inv (run acts t)"
  unfolding run_def by (induction acts arbitrary: t) (simp_all add: inv_step)

lemma inv_reachable: "tracker_inv (run acts (mount env))"
  by (rule inv_run) (rule inv_mount)

section \<open>Reachable states of the component\<close>

lemma rebind_state:
  assumes "tracker_inv t"
    and "cleanup u = cleanup t" "listeners u = listeners t"
    and "st_callbacks u = Some c" "st_domEl u = Some el"
  shows "rerender u =
     u\<lparr>closures := (closures u)(next_closure u \<mapsto> new_binding el (snd c)),
       next_closure := Suc (next_closure u),
       listeners := (\<lambda>_. [])(el := five (next_closure u)),
       cleanup := Some (el, next_closure u)\<rparr>"
proof -
  from assms(1) have "listeners_inv t" by (simp add: tracker_inv_def)
  from listeners_shape [OF this] assms(2,3)
  have "run_cleanup u = u\<lparr>listeners := (\<lambda>_. []), cleanup := None\<rparr>"
    by (intro run_cleanup_result) (auto split: option.splits)
  then show ?thesis
    unfolding rerender_def using assms(4,5)
    by (simp add: effect_bound [where c = c and el = el])
qed

lemma first_event:
  assumes "closures t i = Some (new_binding el cbs)" "listeners t = (\<lambda>_. [])(el := five i)"
  shows "\<exists>s. calls (dispatchEvent el ty e t) = calls t @ [(i, registered ty, s)] \<and> delta s = None"
  using assms
  by (simp add: dispatch_bound call_listener_result handler_unfold Let_def parse_delta
      new_binding_sel)

text \<open>
  Claim C7. In every state the component can reach, if the element or the callback set is
  missing then the tracker is unbound: the effect body returns at its guard and changes
  nothing, no cleanup function is pending, no element has a listener, and an event of any
  type reaching any element leaves the whole state as it is, so no callback is invoked.
  No operation of the hook has a failing outcome: each returns a state.
\<close>

theorem unbound_is_inert:
  "let t = run acts (mount env) in
     (st_domEl t = None \<or> st_callbacks t = None \<longrightarrow>
        effect t = t \<and> cleanup t = None \<and> (\<forall>el. listeners t el = []) \<and>
        (\<forall>el ty e. dispatchEvent el ty e t = t))"
proof -
  define t where "t = run acts (mount env)"
  have inv: "tracker_inv t" unfolding t_def by (rule inv_reachable)
  have "effect t = t \<and> cleanup t = None \<and> (\<forall>el. listeners t el = []) \<and>
        (\<forall>el ty e. dispatchEvent el ty e t = t)"
    if "st_domEl t = None \<or> st_callbacks t = None"
  proof -
    from inv that have c: "cleanup t = None" and l: "listeners t = (\<lambda>_. [])"
      by (auto simp: tracker_inv_def listeners_inv_def split: option.splits)
    from that have "effect t = t\<lparr>cleanup := None\<rparr>" by (intro effect_unbound) auto
    with c have "effect t = t" by (cases t) simp
    with c l show ?thesis by (simp add: dispatch_unbound)
  qed
  then show ?thesis unfolding Let_def t_def by blast
qed

text \<open>
  Claim C8. In every state the component can reach: while a binding is live, the bound
  element carries exactly the five listeners of the live run of the effect, one per event
  type, and no other element carries any; a binding is live exactly when the component is
  mounted with an element and a callback set; when a setter changes the binding, the
  cleanup runs before the effect body and leaves no listener on any element; unmounting
  leaves no listener; and an event runs the one handler registered for its type on the
  bound element and nothing else, so it adds at most one invocation.
\<close>

theorem listeners_follow_binding:
  "let t = run acts (mount env) in
     (case cleanup t of
        None \<Rightarrow> (\<forall>el. listeners t el = [])
      | Some (el, i) \<Rightarrow>
          st_domEl t = Some el \<and>
          listeners t el =
            [(mousemove, i, OnMouseMove), (mousedown, i, OnMouseDown), (mouseup, i, OnMouseUp),
             (mouseenter, i, OnMouseEnter), (mouseleave, i, OnMouseLeave)] \<and>
          (\<forall>el'. el' \<noteq> el \<longrightarrow> listeners t el' = [])) \<and>
     (cleanup t \<noteq> None) = (mounted t \<and> st_domEl t \<noteq> None \<and> st_callbacks t \<noteq> None) \<and>
     (\<forall>v. setDomEl v t =
        (if \<not> mounted t \<or> st_domEl t = v then t else effect (run_cleanup (t\<lparr>st_domEl := v\<rparr>))) \<and>
        (\<forall>el. listeners (run_cleanup (t\<lparr>st_domEl := v\<rparr>)) el = [])) \<and>
     (\<forall>v. setCallbacks v t =
        (if \<not> mounted t \<or> map_option fst (st_callbacks t) = map_option fst v then t
         else effect (run_cleanup (t\<lparr>st_callbacks := v\<rparr>))) \<and>
        (\<forall>el. listeners (run_cleanup (t\<lparr>st_callbacks := v\<rparr>)) el = [])) \<and>
     (\<forall>el. listeners (unmount t) el = []) \<and>
     (\<forall>el ty e. dispatchEvent el ty e t =
        (if cleanup t \<noteq> None \<and> st_domEl t = Some el
         then call_listener (snd (the (cleanup t)), registered ty) e t else t)) \<and>
     (\<forall>el ty e. calls (dispatchEvent el ty e t) = calls t \<or>
        (\<exists>c. calls (dispatchEvent el ty e t) = calls t @ [c]))"
proof -
  define t where "t = run acts (mount env)"
  have inv: "tracker_inv t" unfolding t_def by (rule inv_reachable)
  then have li: "listeners_inv t" by (simp add: tracker_inv_def)
  note shape = listeners_shape [OF li]
  have 1: "case cleanup t of
        None \<Rightarrow> (\<forall>el. listeners t el = [])
      | Some (el, i) \<Rightarrow>
          st_domEl t = Some el \<and>
          listeners t el =
            [(mousemove, i, OnMouseMove), (mousedown, i, OnMouseDown), (mouseup, i, OnMouseUp),
             (mouseenter, i, OnMouseEnter), (mouseleave, i, OnMouseLeave)] \<and>
          (\<forall>el'. el' \<noteq> el \<longrightarrow> listeners t el' = [])"
    using li by (auto simp: listeners_inv_def five_def split: option.splits)
  have 2: "(cleanup t \<noteq> None) = (mounted t \<and> st_domEl t \<noteq> None \<and> st_callbacks t \<noteq> None)"
    using li by (auto simp: listeners_inv_def split: option.splits)
  have clean: "listeners (run_cleanup u) el = []"
    if "cleanup u = cleanup t" "listeners u = listeners t" for u el
  proof -
    from shape that have "run_cleanup u = u\<lparr>listeners := (\<lambda>_. []), cleanup := None\<rparr>"
      by (intro run_cleanup_result) (auto split: option.splits)
    then show ?thesis by simp
  qed
  have 3: "setDomEl v t =
        (if \<not> mounted t \<or> st_domEl t = v then t else effect (run_cleanup (t\<lparr>st_domEl := v\<rparr>))) \<and>
        (\<forall>el. listeners (run_cleanup (t\<lparr>st_domEl := v\<rparr>)) el = [])" for v
    by (simp add: setDomEl_def rerender_def clean)
  have 4: "setCallbacks v t =
        (if \<not> mounted t \<or> map_option fst (st_callbacks t) = map_option fst v then t
         else effect (run_cleanup (t\<lparr>st_callbacks := v\<rparr>))) \<and>
        (\<forall>el. listeners (run_cleanup (t\<lparr>st_callbacks := v\<rparr>)) el = [])" for v
    by (simp add: setCallbacks_def rerender_def clean)
  have 5: "listeners (unmount t) el = []" for el
    using clean [of t el] li by (auto simp: unmount_def listeners_inv_def split: option.splits)
  have 6: "dispatchEvent el ty e t =
        (if cleanup t \<noteq> None \<and> st_domEl t = Some el
         then call_listener (snd (the (cleanup t)), registered ty) e t else t)" for el ty e
    using li by (auto simp: dispatch_cases [OF inv] listeners_inv_def split: option.splits)
  have 7: "calls (dispatchEvent el ty e t) = calls t \<or>
        (\<exists>c. calls (dispatchEvent el ty e t) = calls t @ [c])" for el ty e
    unfolding 6 by (auto simp: call_listener_def split: option.splits prod.splits)
  show ?thesis
    unfolding Let_def t_def [symmetric] using 1 2 3 4 5 6 7 by blast
qed

text \<open>
  Claim C2. In every state the component can reach, a delivered sample carries a delta
  exactly when the same binding (the same run of the effect) delivered an earlier sample;
  every invocation so far belongs to a run older than the next one. Changing the element,
  or replacing the callback set by another object, starts a new run: the first event it
  handles is delivered with no delta, whatever happened before.
\<close>

theorem delta_present_iff_prior_sample:
  "let t = run acts (mount env) in
     (\<forall>n<length (calls t).
        (delta (snd (snd (calls t ! n))) \<noteq> None) =
          (\<exists>m<n. fst (calls t ! m) = fst (calls t ! n))) \<and>
     (\<forall>c\<in>set (calls t). fst c < next_closure t) \<and>
     (\<forall>el ty e. mounted t \<and> st_callbacks t \<noteq> None \<and> st_domEl t \<noteq> Some el \<longrightarrow>
        (\<exists>s. calls (dispatchEvent el ty e (setDomEl (Some el) t)) =
               calls t @ [(next_closure t, registered ty, s)] \<and> delta s = None)) \<and>
     (\<forall>el c ty e. mounted t \<and> st_domEl t = Some el \<and>
                  map_option fst (st_callbacks t) \<noteq> Some (fst c) \<longrightarrow>
        (\<exists>s. calls (dispatchEvent el ty e (setCallbacks (Some c) t)) =
               calls t @ [(next_closure t, registered ty, s)] \<and> delta s = None))"
proof -
  define t where "t = run acts (mount env)"
  have inv: "tracker_inv t" unfolding t_def by (rule inv_reachable)
  then have ci: "closures_inv t" by (simp add: tracker_inv_def)
  have 1: "\<forall>n<length (calls t).
        (delta (snd (snd (calls t ! n))) \<noteq> None) =
          (\<exists>m<n. fst (calls t ! m) = fst (calls t ! n))"
    using ci unfolding closures_inv_def history_ok_def by blast
  have 2: "\<forall>c\<in>set (calls t). fst c < next_closure t"
    using ci unfolding closures_inv_def by blast
  have 3: "\<exists>s. calls (dispatchEvent el ty e (setDomEl (Some el) t)) =
               calls t @ [(next_closure t, registered ty, s)] \<and> delta s = None"
    if "mounted t \<and> st_callbacks t \<noteq> None \<and> st_domEl t \<noteq> Some el" for el ty e
  proof -
    from that obtain c where c: "st_callbacks t = Some c" by auto
    have "setDomEl (Some el) t = rerender (t\<lparr>st_domEl := Some el\<rparr>)"
      using that by (simp add: setDomEl_def)
    also have "\<dots> = (t\<lparr>st_domEl := Some el\<rparr>)
       \<lparr>closures := (closures t)(next_closure t \<mapsto> new_binding el (snd c)),
        next_closure := Suc (next_closure t),
        listeners := (\<lambda>_. [])(el := five (next_closure t)),
        cleanup := Some (el, next_closure t)\<rparr>"
      using rebind_state [OF inv, of "t\<lparr>st_domEl := Some el\<rparr>" c el] c by simp
    finally have eq: "setDomEl (Some el) t = (t\<lparr>st_domEl := Some el\<rparr>)
       \<lparr>closures := (closures t)(next_closure t \<mapsto> new_binding el (snd c)),
        next_closure := Suc (next_closure t),
        listeners := (\<lambda>_. [])(el := five (next_closure t)),
        cleanup := Some (el, next_closure t)\<rparr>" .
    show ?thesis
      using first_event [of "setDomEl (Some el) t" "next_closure t" el "snd c" ty e]
      by (simp add: eq)
  qed
  have 4: "\<exists>s. calls (dispatchEvent el ty e (setCallbacks (Some c) t)) =
               calls t @ [(next_closure t, registered ty, s)] \<and> delta s = None"
    if "mounted t \<and> st_domEl t = Some el \<and> map_option fst (st_callbacks t) \<noteq> Some (fst c)"
    for el c ty e
  proof -
    have "setCallbacks (Some c) t = rerender (t\<lparr>st_callbacks := Some c\<rparr>)"
      using that by (simp add: setCallbacks_def)
    also have "\<dots> = (t\<lparr>st_callbacks := Some c\<rparr>)
       \<lparr>closures := (closures t)(next_closure t \<mapsto> new_binding el (snd c)),
        next_closure := Suc (next_closure t),
        listeners := (\<lambda>_. [])(el := five (next_closure t)),
        cleanup := Some (el, next_closure t)\<rparr>"
      using rebind_state [OF inv, of "t\<lparr>st_callbacks := Some c\<rparr>" c el] that by simp
    finally have eq: "setCallbacks (Some c) t = (t\<lparr>st_callbacks := Some c\<rparr>)
       \<lparr>closures := (closures t)(next_closure t \<mapsto> new_binding el (snd c)),
        next_closure := Suc (next_closure t),
        listeners := (\<lambda>_. [])(el := five (next_closure t)),
        cleanup := Some (el, next_closure t)\<rparr>" .
    show ?thesis
      using first_event [of "setCallbacks (Some c) t" "next_closure t" el "snd c" ty e]
      by (simp add: eq)
  qed
  show ?thesis
    unfolding Let_def t_def [symmetric] using 1 2 3 4 by blast
qed

section \<open>Two concrete histories\<close>

lemmas tracker_defs =
  run_def mount_def effect_def setDomEl_def setCallbacks_def rerender_def run_cleanup_def
  addEventListener_def removeEventListener_def dispatchEvent_def call_listener_def unmount_def
  handler_unfold Let_def

lemma unbound_state:
  "run unbound_actions (mount scenario_env) =
     \<lparr>st_domEl = Some 0, st_callbacks = None, mounted = True, cleanup = None,
      closures = (\<lambda>_. None), next_closure = 0, listeners = (\<lambda>_. []),
      dom = scenario_env, calls = []\<rparr>"
  by (simp add: unbound_actions_def tracker_defs del: handler.simps)

lemma example_state:
  "run example_actions (mount scenario_env) =
     \<lparr>st_domEl = Some 1, st_callbacks = Some (7, idle_callbacks), mounted = True,
      cleanup = Some (1, 1),
      closures = (\<lambda>_. None)
        (0 \<mapsto> (new_binding 0 idle_callbacks)\<lparr>lastPosition := Some \<lparr>x = 20, y = 30\<rparr>\<rparr>,
         1 \<mapsto> (new_binding 1 idle_callbacks)\<lparr>lastPosition := Some \<lparr>x = 10, y = 10\<rparr>\<rparr>),
      next_closure = 2,
      listeners = (\<lambda>_. [])(0 := [], 1 := five 1),
      dom = scenario_env,
      calls = [(0, OnMouseDown, \<lparr>position = \<lparr>x = 10, y = 10\<rparr>, delta = None\<rparr>),
               (0, OnMouseMove, \<lparr>position = \<lparr>x = 20, y = 30\<rparr>, delta = Some \<lparr>x = 10, y = 20\<rparr>\<rparr>),
               (1, OnMouseMove, \<lparr>position = \<lparr>x = 10, y = 10\<rparr>, delta = None\<rparr>)]\<rparr>"
  by (simp add: example_actions_def tracker_defs five_def parseMousePosition_def scenario_simps
      del: handler.simps)


theorem unbound_is_inert_witness:
  "st_callbacks (run unbound_actions (mount scenario_env)) = None \<and>
   effect (run unbound_actions (mount scenario_env)) = run unbound_actions (mount scenario_env) \<and>
   cleanup (run unbound_actions (mount scenario_env)) = None \<and>
   listeners (run unbound_actions (mount scenario_env)) 0 = [] \<and>
   dispatchEvent 0 mousedown event_60_110 (run unbound_actions (mount scenario_env)) =
     run unbound_actions (mount scenario_env)"
  using unbound_is_inert [of unbound_actions scenario_env]
  by (simp add: Let_def unbound_state)

theorem listeners_follow_binding_witness:
  "cleanup (run example_actions (mount scenario_env)) = Some (1, 1) \<and>
   listeners (run example_actions (mount scenario_env)) 1 =
     [(mousemove, 1, OnMouseMove), (mousedown, 1, OnMouseDown), (mouseup, 1, OnMouseUp),
      (mouseenter, 1, OnMouseEnter), (mouseleave, 1, OnMouseLeave)] \<and>
   listeners (run example_actions (mount scenario_env)) 0 = [] \<and>
   listeners (run_cleanup ((run example_actions (mount scenario_env))\<lparr>st_domEl := Some 2\<rparr>)) 1 = [] \<and>
   listeners (unmount (run example_actions (mount scenario_env))) 1 = []"
proof -
  note th = listeners_follow_binding [of example_actions scenario_env, unfolded Let_def]
  from th [THEN conjunct1]
  have a: "cleanup (run example_actions (mount scenario_env)) = Some (1, 1) \<and>
     listeners (run example_actions (mount scenario_env)) 1 =
       [(mousemove, 1, OnMouseMove), (mousedown, 1, OnMouseDown), (mouseup, 1, OnMouseUp),
        (mouseenter, 1, OnMouseEnter), (mouseleave, 1, OnMouseLeave)] \<and>
     listeners (run example_actions (mount scenario_env)) 0 = []"
    by (simp add: example_state)
  from th [THEN conjunct2, THEN conjunct2, THEN conjunct1]
  have b: "listeners (run_cleanup ((run example_actions (mount scenario_env))\<lparr>st_domEl := Some 2\<rparr>)) 1 = []"
    by blast
  from th [THEN conjunct2, THEN conjunct2, THEN conjunct2, THEN conjunct2, THEN conjunct1]
  have c: "listeners (unmount (run example_actions (mount scenario_env))) 1 = []"
    by blast
  from a b c show ?thesis by blast
qed

theorem delta_present_iff_prior_sample_witness:
  "length (calls (run example_actions (mount scenario_env))) = 3 \<and>
   delta (snd (snd (calls (run example_actions (mount scenario_env)) ! 0))) = None \<and>
   fst (calls (run example_actions (mount scenario_env)) ! 0) =
     fst (calls (run example_actions (mount scenario_env)) ! 1) \<and>
   delta (snd (snd (calls (run example_actions (mount scenario_env)) ! 1))) = Some \<lparr>x = 10, y = 20\<rparr> \<and>
   fst (calls (run example_actions (mount scenario_env)) ! 2) = 1 \<and>
   delta (snd (snd (calls (run example_actions (mount scenario_env)) ! 2))) = None \<and>
   mounted (run example_actions (mount scenario_env)) \<and>
   st_callbacks (run example_actions (mount scenario_env)) \<noteq> None \<and>
   st_domEl (run example_actions (mount scenario_env)) \<noteq> Some 5 \<and>
   (\<exists>s. calls (dispatchEvent 5 mouseup event_70_130
                 (setDomEl (Some 5) (run example_actions (mount scenario_env)))) =
          calls (run example_actions (mount scenario_env)) @ [(2, OnMouseUp, s)] \<and>
        delta s = None)"
proof -
  note th = delta_present_iff_prior_sample [of example_actions scenario_env, unfolded Let_def]
  have e: "calls (run example_actions (mount scenario_env)) =
       [(0, OnMouseDown, \<lparr>position = \<lparr>x = 10, y = 10\<rparr>, delta = None\<rparr>),
        (0, OnMouseMove, \<lparr>position = \<lparr>x = 20, y = 30\<rparr>, delta = Some \<lparr>x = 10, y = 20\<rparr>\<rparr>),
        (1, OnMouseMove, \<lparr>position = \<lparr>x = 10, y = 10\<rparr>, delta = None\<rparr>)]"
    "mounted (run example_actions (mount scenario_env))"
    "st_callbacks (run example_actions (mount scenario_env)) \<noteq> None"
    "st_domEl (run example_actions (mount scenario_env)) \<noteq> Some 5"
    "next_closure (run example_actions (mount scenario_env)) = 2"
    by (simp_all add: example_state)
  from th [THEN conjunct2, THEN conjunct2, THEN conjunct1]
  have "mounted (run example_actions (mount scenario_env)) \<and>
      st_callbacks (run example_actions (mount scenario_env)) \<noteq> None \<and>
      st_domEl (run example_actions (mount scenario_env)) \<noteq> Some 5 \<longrightarrow>
      (\<exists>s. calls (dispatchEvent 5 mouseup event_70_130
                 (setDomEl (Some 5) (run example_actions (mount scenario_env)))) =
          calls (run example_actions (mount scenario_env)) @
            [(next_closure (run example_actions (mount scenario_env)), registered mouseup, s)] \<and>
        delta s = None)"
    by blast
  with e(2-5)
  have b: "\<exists>s. calls (dispatchEvent 5 mouseup event_70_130
                 (setDomEl (Some 5) (run example_actions (mount scenario_env)))) =
          calls (run example_actions (mount scenario_env)) @ [(2, OnMouseUp, s)] \<and>
        delta s = None"
    by simp
  have a: "length (calls (run example_actions (mount scenario_env))) = 3 \<and>
     delta (snd (snd (calls (run example_actions (mount scenario_env)) ! 0))) = None \<and>
     fst (calls (run example_actions (mount scenario_env)) ! 0) =
       fst (calls (run example_actions (mount scenario_env)) ! 1) \<and>
     delta (snd (snd (calls (run example_actions (mount scenario_env)) ! 1))) = Some \<lparr>x = 10, y = 20\<rparr> \<and>
     fst (calls (run example_actions (mount scenario_env)) ! 2) = 1 \<and>
     delta (snd (snd (calls (run example_actions (mount scenario_env)) ! 2))) = None"
    by (simp add: e(1))
  from a b e(2-4) show ?thesis by blast
qed

end
